theory Spec2Isabelle
  imports Complex_Main "HOL-Library.Word"
begin

section \<open>The to-do list of \<open>src/ToDo/App.tsx\<close>\<close>

text \<open>
  The component \<open>TodoApp\<close> keeps seven pieces of React state and changes them in event
  handlers. The model below is a record of that state and one function per handler, each
  taking the state before the event and returning the state after it. The two readings of
  \<open>Date.now()\<close> that \<open>addTodo\<close> takes are inputs of the handler.
\<close>

subsection \<open>JavaScript values\<close>

text \<open>
  A JavaScript string is a sequence of UTF-16 code units. \<open>js\<close> turns an ASCII literal
  into such a sequence.
\<close>

type_synonym code_unit = "16 word"
type_synonym jsstring = "code_unit list"

definition js :: "string \<Rightarrow> jsstring" where
  "js s = map (\<lambda>c. of_nat (of_char c)) s"

text \<open>
  \<open>String.prototype.trim\<close> removes the code units of WhiteSpace and LineTerminator
  (ECMA-262) from both ends: TAB, LF, VT, FF, CR, SP, NBSP, U+1680, U+2000 to U+200A,
  U+2028, U+2029, U+202F, U+205F, U+3000 and U+FEFF.
\<close>

definition isWhiteSpace :: "code_unit \<Rightarrow> bool" where
  "isWhiteSpace c \<longleftrightarrow>
     c = 0x9 \<or> c = 0xA \<or> c = 0xB \<or> c = 0xC \<or> c = 0xD \<or> c = 0x20 \<or> c = 0xA0 \<or>
     c = 0x1680 \<or> (0x2000 \<le> c \<and> c \<le> 0x200A) \<or> c = 0x2028 \<or> c = 0x2029 \<or>
     c = 0x202F \<or> c = 0x205F \<or> c = 0x3000 \<or> c = 0xFEFF"

definition trim :: "jsstring \<Rightarrow> jsstring" where
  "trim s = rev (dropWhile isWhiteSpace (rev (dropWhile isWhiteSpace s)))"

text \<open>
  \<open>s.includes(q)\<close>, named \<open>includes_js\<close> here: does \<open>q\<close> occur in \<open>s\<close> at some
  position, searched from the left. \<open>startsWith s q\<close> is the test at position 0.
\<close>

fun startsWith :: "jsstring \<Rightarrow> jsstring \<Rightarrow> bool" where
  "startsWith s [] = True"
| "startsWith [] (c # q) = False"
| "startsWith (a # s) (c # q) = (a = c \<and> startsWith s q)"

fun includes_js :: "jsstring \<Rightarrow> jsstring \<Rightarrow> bool" where
  "includes_js [] q = (q = [])"
| "includes_js (a # s) q = (startsWith (a # s) q \<or> includes_js s q)"

text \<open>
  \<open>Number.prototype.toString\<close> on an integer: its decimal digits, after a minus sign
  when it is negative. (Exact for magnitudes below \<open>10^21\<close>; a time value is at most
  \<open>8.64 * 10^15\<close> in magnitude.)
\<close>

definition digit :: "nat \<Rightarrow> code_unit" where
  "digit d = of_nat (48 + d)"

fun digits :: "nat \<Rightarrow> jsstring" where
  "digits n = (if n < 10 then [digit n] else digits (n div 10) @ [digit (n mod 10)])"

declare digits.simps [simp del]

definition toString :: "int \<Rightarrow> jsstring" where
  "toString n = (if n < 0 then 0x2D # digits (nat (- n)) else digits (nat n))"

text \<open>
  The quotient of two integers as a JavaScript number: a zero divisor gives \<open>NaN\<close> or
  an infinity and never a fault. A quotient with a nonzero divisor is kept as the exact
  rational; the rounding to the nearest double is not modelled.
\<close>

datatype number = Finite rat | PosInfinity | NegInfinity | NaN

definition js_div :: "int \<Rightarrow> int \<Rightarrow> number" where
  "js_div a b =
     (if b = 0 then (if a = 0 then NaN else if 0 < a then PosInfinity else NegInfinity)
      else Finite (of_int a / of_int b))"

subsection \<open>Data model\<close>

datatype Priority = High | Medium | Low

record Todo =
  id_todo :: jsstring
  text_todo :: jsstring
  completed :: bool
  priority_todo :: Priority
  createdAt :: int

datatype Filter = All_filter | Active_filter | Completed_filter

text \<open>The state of \<open>TodoApp\<close>, one field per \<open>useState\<close>.\<close>

record app_state =
  todos :: "Todo list"
  input :: jsstring
  filter_st :: Filter
  priority :: Priority
  search :: jsstring
  editingId :: "jsstring option"
  editText :: jsstring

definition initial :: app_state where
  "initial = \<lparr>todos = [], input = [], filter_st = All_filter, priority = Medium,
     search = [], editingId = None, editText = []\<rparr>"

subsection \<open>Actions\<close>

text \<open>
  \<open>addTodo\<close>: \<open>now_id\<close> is the value of the first \<open>Date.now()\<close> (the id), \<open>now_created\<close>
  that of the second (\<open>createdAt\<close>). \<open>Keyboard.dismiss()\<close> touches no state.
\<close>

definition addTodo :: "int \<Rightarrow> int \<Rightarrow> app_state \<Rightarrow> app_state" where
  "addTodo now_id now_created st =
     (let text = trim (input st) in
      if text = [] then st
      else st\<lparr>todos :=
                \<lparr>id_todo = toString now_id, text_todo = text, completed = False,
                 priority_todo = priority st, createdAt = now_created\<rparr> # todos st,
              input := []\<rparr>)"

definition toggleTodo :: "jsstring \<Rightarrow> app_state \<Rightarrow> app_state" where
  "toggleTodo i st =
     st\<lparr>todos := map (\<lambda>t. if id_todo t = i then t\<lparr>completed := \<not> completed t\<rparr> else t)
                    (todos st)\<rparr>"

definition deleteTodo :: "jsstring \<Rightarrow> app_state \<Rightarrow> app_state" where
  "deleteTodo i st = st\<lparr>todos := filter (\<lambda>t. id_todo t \<noteq> i) (todos st)\<rparr>"

text \<open>
  \<open>clearCompleted\<close> opens a dialog with two buttons; the list changes when the user
  presses the second one.
\<close>

datatype alert_button = Cancel | Clear

definition clearCompleted :: "alert_button \<Rightarrow> app_state \<Rightarrow> app_state" where
  "clearCompleted b st =
     (case b of
        Cancel \<Rightarrow> st
      | Clear \<Rightarrow> st\<lparr>todos := filter (\<lambda>t. \<not> completed t) (todos st)\<rparr>)"

definition startEdit :: "Todo \<Rightarrow> app_state \<Rightarrow> app_state" where
  "startEdit todo st = st\<lparr>editingId := Some (id_todo todo), editText := text_todo todo\<rparr>"

text \<open>
  \<open>saveEdit\<close>: the test \<open>if (editingId)\<close> fails for \<open>null\<close> and for the empty string.
\<close>

definition saveEdit :: "app_state \<Rightarrow> app_state" where
  "saveEdit st =
     (case editingId st of
        None \<Rightarrow> st
      | Some eid \<Rightarrow>
          if eid = [] then st
          else
            (let text = trim (editText st);
                 st' = (if text \<noteq> []
                        then st\<lparr>todos := map (\<lambda>t. if id_todo t = eid
                                                    then t\<lparr>text_todo := text\<rparr> else t)
                                              (todos st)\<rparr>
                        else st)
             in st'\<lparr>editingId := None\<rparr>))"

subsection \<open>Derived values\<close>

text \<open>
  \<open>filtered\<close>. \<open>String.prototype.toLowerCase\<close> follows the Unicode case tables, which are
  no part of the repository: it is the parameter \<open>toLowerCase\<close>.
\<close>

definition filtered :: "(jsstring \<Rightarrow> jsstring) \<Rightarrow> app_state \<Rightarrow> Todo list" where
  "filtered toLowerCase st =
     filter (\<lambda>t.
        let matchesFilter =
              (if filter_st st = Active_filter then \<not> completed t
               else if filter_st st = Completed_filter then completed t
               else True);
            matchesSearch =
              (search st = [] \<or>
               includes_js (toLowerCase (text_todo t)) (toLowerCase (search st)))
        in matchesFilter \<and> matchesSearch)
       (todos st)"

definition remaining :: "app_state \<Rightarrow> nat" where
  "remaining st = length (filter (\<lambda>t. \<not> completed t) (todos st))"

definition completionPct :: "app_state \<Rightarrow> number" where
  "completionPct st =
     (if length (todos st) > 0
      then js_div (int (length (todos st)) - int (remaining st)) (int (length (todos st)))
      else Finite 0)"

text \<open>A lower-casing of the ASCII letters, to run \<open>filtered\<close> on ASCII texts.\<close>

definition asciiLower :: "jsstring \<Rightarrow> jsstring" where
  "asciiLower s = map (\<lambda>c. if 0x41 \<le> c \<and> c \<le> 0x5A then c + 0x20 else c) s"

subsection \<open>Runs of the component\<close>

text \<open>
  The events the component reacts to: the text fields and selectors set their state
  variable, the other events call a handler.
\<close>

datatype event =
    SetInput jsstring
  | SetPriority Priority
  | SetFilter Filter
  | SetSearch jsstring
  | SetEditText jsstring
  | AddTodo int int
  | ToggleTodo jsstring
  | DeleteTodo jsstring
  | ClearCompleted alert_button
  | StartEdit Todo
  | SaveEdit

fun step :: "event \<Rightarrow> app_state \<Rightarrow> app_state" where
  "step (SetInput s) st = st\<lparr>input := s\<rparr>"
| "step (SetPriority p) st = st\<lparr>priority := p\<rparr>"
| "step (SetFilter f) st = st\<lparr>filter_st := f\<rparr>"
| "step (SetSearch s) st = st\<lparr>search := s\<rparr>"
| "step (SetEditText s) st = st\<lparr>editText := s\<rparr>"
| "step (AddTodo now_id now_created) st = addTodo now_id now_created st"
| "step (ToggleTodo i) st = toggleTodo i st"
| "step (DeleteTodo i) st = deleteTodo i st"
| "step (ClearCompleted b) st = clearCompleted b st"
| "step (StartEdit todo) st = startEdit todo st"
| "step SaveEdit st = saveEdit st"

fun run :: "event list \<Rightarrow> app_state \<Rightarrow> app_state" where
  "run [] st = st"
| "run (e # es) st = run es (step e st)"

text \<open>
  The readings of the clock from which a run makes ids: one for each \<open>AddTodo\<close> that
  creates a task, in the order of the run.
\<close>

fun id_readings :: "event list \<Rightarrow> app_state \<Rightarrow> int list" where
  "id_readings [] st = []"
| "id_readings (AddTodo now_id now_created # es) st =
     (if trim (input st) = [] then id_readings es (step (AddTodo now_id now_created) st)
      else now_id # id_readings es (step (AddTodo now_id now_created) st))"
| "id_readings (e # es) st = id_readings es (step e st)"

definition assigned_ids :: "event list \<Rightarrow> app_state \<Rightarrow> jsstring list" where
  "assigned_ids es st = map toString (id_readings es st)"

subsection \<open>The derived view in the words of the specification\<close>

text \<open>
  The two stages of the view as the specification words them, to compare \<open>filtered\<close>
  with: a task passes the filter stage if the filter is \<open>all\<close>, or it is \<open>active\<close> and
  the task is not completed, or it is \<open>completed\<close> and the task is completed; it passes
  the search stage if the query is empty or the case-folded text contains the case-folded
  query as a substring.
\<close>

definition spec_passes_filter :: "Filter \<Rightarrow> Todo \<Rightarrow> bool" where
  "spec_passes_filter f t \<longleftrightarrow>
     f = All_filter \<or> (f = Active_filter \<and> \<not> completed t) \<or>
     (f = Completed_filter \<and> completed t)"

definition spec_passes_search :: "(jsstring \<Rightarrow> jsstring) \<Rightarrow> jsstring \<Rightarrow> Todo \<Rightarrow> bool" where
  "spec_passes_search caseFold q t \<longleftrightarrow>
     q = [] \<or> (\<exists>before after. caseFold (text_todo t) = before @ caseFold q @ after)"

subsection \<open>Example states\<close>

text \<open>States reached from the initial one, and the list of a scenario of the specification.\<close>

definition one_task :: app_state where
  "one_task = run [SetInput (js ''a''), AddTodo 5 5] initial"

definition two_tasks :: app_state where
  "two_tasks = run [SetInput (js ''a''), AddTodo 5 5, SetInput (js ''b''), AddTodo 6 6] initial"

definition three_tasks_one_done :: app_state where
  "three_tasks_one_done =
     run [SetInput (js ''a''), AddTodo 5 5, SetInput (js ''b''), AddTodo 6 6,
          SetInput (js ''c''), AddTodo 7 7, ToggleTodo (js ''6'')] initial"

definition milk_and_dog :: app_state where
  "milk_and_dog =
     \<lparr>todos = [\<lparr>id_todo = js ''1'', text_todo = js ''Buy milk'', completed = False,
                 priority_todo = Medium, createdAt = 1\<rparr>,
               \<lparr>id_todo = js ''2'', text_todo = js ''Walk dog'', completed = True,
                 priority_todo = Medium, createdAt = 2\<rparr>],
      input = [], filter_st = All_filter, priority = Medium,
      search = js ''dog'', editingId = None, editText = []\<rparr>"

section \<open>Facts about the JavaScript values\<close>

lemma startsWith_iff: "startsWith s q \<longleftrightarrow> (\<exists>ss. s = q @ ss)"
  by (induction s q rule: startsWith.induct) auto

lemma includes_js_iff: "includes_js s q \<longleftrightarrow> (\<exists>ps ss. s = ps @ q @ ss)"
proof (induction s)
  case Nil
  then show ?case by auto
next
  case (Cons a s)
  have "(\<exists>ps ss. a # s = ps @ q @ ss) \<longleftrightarrow> (\<exists>ss. a # s = q @ ss) \<or> (\<exists>ps ss. s = ps @ q @ ss)"
  proof
    assume "\<exists>ps ss. a # s = ps @ q @ ss"
    then obtain ps ss where e: "a # s = ps @ q @ ss" by blast
    show "(\<exists>ss. a # s = q @ ss) \<or> (\<exists>ps ss. s = ps @ q @ ss)"
    proof (cases ps)
      case Nil
      with e show ?thesis by auto
    next
      case (Cons p ps')
      with e have "s = ps' @ q @ ss" by simp
      then show ?thesis by blast
    qed
  next
    assume "(\<exists>ss. a # s = q @ ss) \<or> (\<exists>ps ss. s = ps @ q @ ss)"
    then show "\<exists>ps ss. a # s = ps @ q @ ss"
    proof
      assume "\<exists>ss. a # s = q @ ss"
      then obtain ss where "a # s = [] @ q @ ss" by auto
      then show ?thesis by blast
    next
      assume "\<exists>ps ss. s = ps @ q @ ss"
      then obtain ps ss where "a # s = (a # ps) @ q @ ss" by auto
      then show ?thesis by blast
    qed
  qed
  with Cons show ?case by (simp del: startsWith.simps add: startsWith_iff)
qed

text \<open>\<open>toString\<close> is injective: folding the digits back gives the number.\<close>

lemma unat_digit: "d < 10 \<Longrightarrow> unat (digit d) = 48 + d"
  by (simp only: digit_def unat_of_nat) simp

lemma foldl_digits: "foldl (\<lambda>a c. 10 * a + (unat c - 48)) 0 (digits n) = n"
proof (induction n rule: digits.induct)
  case (1 n)
  show ?case
  proof (cases "n < 10")
    case True
    then show ?thesis by (simp add: digits.simps [of n] unat_digit)
  next
    case False
    with 1 have "foldl (\<lambda>a c. 10 * a + (unat c - 48)) 0 (digits (n div 10)) = n div 10"
      by simp
    with False show ?thesis
      by (simp add: digits.simps [of n] unat_digit)
  qed
qed

lemma digits_inj: "digits m = digits n \<Longrightarrow> m = n"
  by (metis foldl_digits)

lemma digits_range: "c \<in> set (digits n) \<Longrightarrow> 48 \<le> unat c"
proof (induction n rule: digits.induct)
  case (1 n)
  show ?case
  proof (cases "n < 10")
    case True
    with 1(2) show ?thesis by (simp add: digits.simps [of n] unat_digit)
  next
    case False
    with 1 show ?thesis
      by (auto simp add: digits.simps [of n] unat_digit)
  qed
qed

lemma digits_not_Nil: "digits n \<noteq> []"
  by (simp add: digits.simps [of n])

lemma hd_digits_not_minus: "hd (digits n) \<noteq> 0x2D"
proof
  assume h: "hd (digits n) = 0x2D"
  have "hd (digits n) \<in> set (digits n)" using digits_not_Nil by simp
  then have "48 \<le> unat (hd (digits n))" by (rule digits_range)
  with h show False by simp
qed

lemma toString_inj: "toString m = toString n \<Longrightarrow> m = n"
proof -
  assume e: "toString m = toString n"
  have neg: "hd (toString k) = 0x2D \<longleftrightarrow> k < 0" for k
    using hd_digits_not_minus [of "nat k"] by (simp add: toString_def)
  from e have s: "m < 0 \<longleftrightarrow> n < 0" using neg by metis
  show ?thesis
  proof (cases "m < 0")
    case True
    with s e have "digits (nat (- m)) = digits (nat (- n))" by (simp add: toString_def)
    then have "nat (- m) = nat (- n)" by (rule digits_inj)
    with True s show ?thesis by simp
  next
    case False
    with s e have "digits (nat m) = digits (nat n)" by (simp add: toString_def)
    then have "nat m = nat n" by (rule digits_inj)
    with False s show ?thesis by simp
  qed
qed

lemma toString_not_Nil: "toString n \<noteq> []"
  by (simp add: toString_def digits_not_Nil)

section \<open>The example states, evaluated\<close>

lemma one_task_eq:
  "one_task = \<lparr>todos = [\<lparr>id_todo = js ''5'', text_todo = js ''a'', completed = False,
                 priority_todo = Medium, createdAt = 5\<rparr>],
      input = [], filter_st = All_filter, priority = Medium,
      search = [], editingId = None, editText = []\<rparr>"
  by (simp add: one_task_def initial_def addTodo_def js_def trim_def isWhiteSpace_def
      toString_def digits.simps digit_def)

lemma two_tasks_eq:
  "two_tasks =
     \<lparr>todos = [\<lparr>id_todo = js ''6'', text_todo = js ''b'', completed = False,
                 priority_todo = Medium, createdAt = 6\<rparr>,
               \<lparr>id_todo = js ''5'', text_todo = js ''a'', completed = False,
                 priority_todo = Medium, createdAt = 5\<rparr>],
      input = [], filter_st = All_filter, priority = Medium,
      search = [], editingId = None, editText = []\<rparr>"
  by (simp add: two_tasks_def initial_def addTodo_def js_def trim_def isWhiteSpace_def
      toString_def digits.simps digit_def)

lemma three_tasks_one_done_eq:
  "todos three_tasks_one_done =
     [\<lparr>id_todo = js ''7'', text_todo = js ''c'', completed = False,
       priority_todo = Medium, createdAt = 7\<rparr>,
      \<lparr>id_todo = js ''6'', text_todo = js ''b'', completed = True,
       priority_todo = Medium, createdAt = 6\<rparr>,
      \<lparr>id_todo = js ''5'', text_todo = js ''a'', completed = False,
       priority_todo = Medium, createdAt = 5\<rparr>]"
  by (simp add: three_tasks_one_done_def initial_def addTodo_def toggleTodo_def js_def trim_def
      isWhiteSpace_def toString_def digits.simps digit_def)

section \<open>Ids along a run\<close>

lemma id_readings_Cons: "id_readings (e # es) st = id_readings [e] st @ id_readings es (step e st)"
  by (cases e) simp_all

lemma ids_toggleTodo: "map id_todo (todos (toggleTodo i st)) = map id_todo (todos st)"
  by (simp add: toggleTodo_def comp_def)

lemma ids_saveEdit: "map id_todo (todos (saveEdit st)) = map id_todo (todos st)"
  by (simp add: saveEdit_def Let_def comp_def split: option.splits)

lemma step_keeps_ids:
  assumes "distinct (map id_todo (todos st))"
    and "set (map id_todo (todos st)) \<subseteq> toString ` set H"
    and "distinct (H @ id_readings [e] st)"
  shows "distinct (map id_todo (todos (step e st))) \<and>
         set (map id_todo (todos (step e st))) \<subseteq> toString ` set (H @ id_readings [e] st)"
proof (cases e)
  case (AddTodo n c)
  show ?thesis
  proof (cases "trim (input st) = []")
    case True
    with AddTodo assms show ?thesis by (simp add: addTodo_def)
  next
    case False
    with AddTodo assms(3) have "n \<notin> set H" by simp
    then have "toString n \<notin> toString ` set H" using toString_inj by blast
    with assms(2) have "toString n \<notin> set (map id_todo (todos st))" by blast
    with False AddTodo assms(1,2) show ?thesis by (auto simp add: addTodo_def)
  qed
next
  case (ToggleTodo i)
  with assms show ?thesis by (simp add: ids_toggleTodo del: set_map)
next
  case (DeleteTodo i)
  with assms show ?thesis by (auto simp add: deleteTodo_def distinct_map_filter)
next
  case (ClearCompleted b)
  with assms show ?thesis
    by (cases b) (auto simp add: clearCompleted_def distinct_map_filter)
next
  case SaveEdit
  with assms show ?thesis by (simp add: ids_saveEdit del: set_map)
qed (use assms in \<open>simp_all add: startEdit_def\<close>)

lemma run_keeps_ids:
  "distinct (map id_todo (todos st)) \<Longrightarrow>
   set (map id_todo (todos st)) \<subseteq> toString ` set H \<Longrightarrow>
   distinct (H @ id_readings es st) \<Longrightarrow>
   distinct (map id_todo (todos (run es st))) \<and>
   set (map id_todo (todos (run es st))) \<subseteq> toString ` set (H @ id_readings es st)"
proof (induction es arbitrary: st H)
  case Nil
  then show ?case by simp
next
  case (Cons e es)
  have split: "H @ id_readings (e # es) st = (H @ id_readings [e] st) @ id_readings es (step e st)"
    using id_readings_Cons [of e es st] by simp
  from Cons.prems(3) have d1: "distinct (H @ id_readings [e] st)"
    unfolding split by auto
  from step_keeps_ids [OF Cons.prems(1,2) d1]
  have a: "distinct (map id_todo (todos (step e st)))"
    and b: "set (map id_todo (todos (step e st))) \<subseteq> toString ` set (H @ id_readings [e] st)"
    by blast+
  from Cons.prems(3) have c: "distinct ((H @ id_readings [e] st) @ id_readings es (step e st))"
    unfolding split .
  from Cons.IH [OF a b c] show ?case unfolding split by simp
qed

text \<open>No run gives a task the empty id: an id is the decimal string of a number.\<close>

lemma step_no_empty_id:
  assumes "[] \<notin> set (map id_todo (todos st))"
  shows "[] \<notin> set (map id_todo (todos (step e st)))"
proof (cases e)
  case (AddTodo n c)
  with assms show ?thesis
    using toString_not_Nil [of n] by (auto simp add: addTodo_def Let_def)
next
  case (ToggleTodo i)
  with assms show ?thesis by (simp add: ids_toggleTodo del: set_map)
next
  case (DeleteTodo i)
  with assms show ?thesis by (auto simp add: deleteTodo_def)
next
  case (ClearCompleted b)
  with assms show ?thesis by (cases b) (auto simp add: clearCompleted_def)
next
  case SaveEdit
  with assms show ?thesis by (simp add: ids_saveEdit del: set_map)
qed (use assms in \<open>simp_all add: startEdit_def\<close>)

lemma run_no_empty_id:
  "[] \<notin> set (map id_todo (todos st)) \<Longrightarrow> [] \<notin> set (map id_todo (todos (run es st)))"
proof (induction es arbitrary: st)
  case Nil
  then show ?case by simp
next
  case (Cons e es)
  from Cons.prems have "[] \<notin> set (map id_todo (todos (step e st)))"
    by (rule step_no_empty_id)
  then have "[] \<notin> set (map id_todo (todos (run es (step e st))))"
    by (rule Cons.IH)
  then show ?case by simp
qed

lemma reachable_no_empty_id: "[] \<notin> set (map id_todo (todos (run es initial)))"
  by (rule run_no_empty_id) (simp add: initial_def)

text \<open>
  In a run whose task-creating adds read pairwise different clock values, the ids of the
  list are pairwise distinct.
\<close>

lemma ids_distinct_for_distinct_readings:
  assumes "distinct (id_readings es initial)"
  shows "distinct (map id_todo (todos (run es initial)))"
proof -
  have "distinct (map id_todo (todos initial))"
    and "set (map id_todo (todos initial)) \<subseteq> toString ` set []"
    by (simp_all add: initial_def)
  moreover from assms have "distinct ([] @ id_readings es initial)" by simp
  ultimately have "distinct (map id_todo (todos (run es initial))) \<and>
      set (map id_todo (todos (run es initial))) \<subseteq> toString ` set ([] @ id_readings es initial)"
    by (rule run_keeps_ids)
  then show ?thesis by blast
qed


section \<open>The claims\<close>

subsection \<open>C1: uniqueness of ids\<close>

text \<open>
  C1 says that in every reachable state the ids of the tasks are pairwise distinct and
  that an id once assigned is never assigned again. The code does not keep this: the id
  of a new task is the decimal string of \<open>Date.now()\<close>, and in the run of two adds that
  read the same clock value 5 both tasks of the list have the id "5", which the run
  assigned twice.
\<close>

theorem ids_of_two_adds_at_one_reading:
  "map id_todo (todos (run [SetInput (js ''a''), AddTodo 5 5,
                            SetInput (js ''b''), AddTodo 5 5] initial)) = [js ''5'', js ''5''] \<and>
   assigned_ids [SetInput (js ''a''), AddTodo 5 5, SetInput (js ''b''), AddTodo 5 5] initial
     = [js ''5'', js ''5''] \<and>
   \<not> distinct (map id_todo (todos (run [SetInput (js ''a''), AddTodo 5 5,
                                         SetInput (js ''b''), AddTodo 5 5] initial)))"
  by (simp add: initial_def addTodo_def assigned_ids_def js_def trim_def isWhiteSpace_def
      toString_def digits.simps digit_def)

subsection \<open>C2: add\<close>

text \<open>
  Whatever the clock reads, add leaves the list unchanged when the trimmed text is
  empty, and otherwise puts in front of the unchanged old list the task with the trimmed
  text, \<open>completed = false\<close>, the given priority and the decimal string of the reading
  as id.
\<close>

lemma addTodo_prepends:
  "(trim t = [] \<longrightarrow> todos (addTodo n c (st\<lparr>input := t, priority := p\<rparr>)) = todos st) \<and>
   (trim t \<noteq> [] \<longrightarrow>
      length (todos (addTodo n c (st\<lparr>input := t, priority := p\<rparr>))) = Suc (length (todos st)) \<and>
      hd (todos (addTodo n c (st\<lparr>input := t, priority := p\<rparr>))) =
        \<lparr>id_todo = toString n, text_todo = trim t, completed = False,
         priority_todo = p, createdAt = c\<rparr> \<and>
      tl (todos (addTodo n c (st\<lparr>input := t, priority := p\<rparr>))) = todos st)"
  by (simp add: addTodo_def)

text \<open>
  C2 says that the new task gets a fresh id. The code does not keep this part: in the
  state with one task made at the clock reading 5, an add of the text "b" that reads 5
  again puts a task in front whose id "5" is the id of the task already in the list.
\<close>

theorem addTodo_at_same_reading_not_fresh:
  "trim (js ''b'') = js ''b'' \<and>
   map id_todo (todos one_task) = [js ''5''] \<and>
   map id_todo (todos (addTodo 5 5 (one_task\<lparr>input := js ''b'', priority := Low\<rparr>)))
     = [js ''5'', js ''5''] \<and>
   id_todo (hd (todos (addTodo 5 5 (one_task\<lparr>input := js ''b'', priority := Low\<rparr>))))
     \<in> set (map id_todo (todos one_task))"
  by (simp add: one_task_eq addTodo_def js_def trim_def isWhiteSpace_def
      toString_def digits.simps digit_def)

subsection \<open>C3: the derived view\<close>

text \<open>
  C3: for every task list, filter and search string, \<open>filtered\<close> is the subsequence of
  the tasks, in the order of the list, that pass both the filter stage and the search
  stage as the specification words them. This holds for every case folding.
\<close>

theorem filtered_spec:
  "filtered toLowerCase st =
     filter (\<lambda>t. spec_passes_filter (filter_st st) t \<and> spec_passes_search toLowerCase (search st) t)
       (todos st)"
  unfolding filtered_def Let_def spec_passes_filter_def spec_passes_search_def includes_js_iff
  by (rule filter_cong) (auto intro: Filter.exhaust)

text \<open>The list of "Buy milk" and "Walk dog" with the query "dog" has the view "Walk dog".\<close>

theorem filtered_spec_witness:
  "filter (\<lambda>t. spec_passes_filter (filter_st milk_and_dog) t \<and>
               spec_passes_search asciiLower (search milk_and_dog) t) (todos milk_and_dog)
   = [\<lparr>id_todo = js ''2'', text_todo = js ''Walk dog'', completed = True,
        priority_todo = Medium, createdAt = 2\<rparr>]"
proof -
  have "filtered asciiLower milk_and_dog =
     [\<lparr>id_todo = js ''2'', text_todo = js ''Walk dog'', completed = True,
       priority_todo = Medium, createdAt = 2\<rparr>]"
    by (simp add: milk_and_dog_def filtered_def js_def asciiLower_def)
  with filtered_spec [of asciiLower milk_and_dog] show ?thesis by simp
qed

subsection \<open>C4: progress\<close>

text \<open>
  C4: for every task list, \<open>remaining\<close> is the number of positions that hold a task with
  \<open>completed = false\<close>; \<open>completionPct\<close> is \<open>(total - remaining) / total\<close> when the list
  is not empty and 0 when it is empty; the result is always a finite number, never
  \<open>NaN\<close> or an infinity.
\<close>

theorem progress_spec:
  "remaining st = card {k. k < length (todos st) \<and> \<not> completed (todos st ! k)} \<and>
   (length (todos st) > 0 \<longrightarrow>
      completionPct st =
        Finite ((of_nat (length (todos st)) - of_nat (remaining st)) / of_nat (length (todos st)))) \<and>
   (todos st = [] \<longrightarrow> remaining st = 0 \<and> completionPct st = Finite 0) \<and>
   (\<exists>q. completionPct st = Finite q)"
proof -
  have r: "remaining st = card {k. k < length (todos st) \<and> \<not> completed (todos st ! k)}"
    by (simp add: remaining_def length_filter_conv_card)
  have pos: "completionPct st =
        Finite ((of_nat (length (todos st)) - of_nat (remaining st)) / of_nat (length (todos st)))"
    if "length (todos st) > 0"
    using that by (simp add: completionPct_def js_div_def)
  have emp: "remaining st = 0 \<and> completionPct st = Finite 0" if "todos st = []"
    using that by (simp add: remaining_def completionPct_def)
  have fin: "\<exists>q. completionPct st = Finite q"
    by (simp add: completionPct_def js_div_def)
  from r pos emp fin show ?thesis by blast
qed

text \<open>Three tasks, one of them completed: two remain and the fraction is one third.
  The empty list: none remains and the fraction is 0.\<close>

theorem progress_spec_witness:
  "length (todos three_tasks_one_done) > 0 \<and>
   remaining three_tasks_one_done = 2 \<and>
   completionPct three_tasks_one_done = Finite (1 / 3) \<and>
   todos initial = [] \<and> remaining initial = 0 \<and> completionPct initial = Finite 0"
proof -
  have l: "length (todos three_tasks_one_done) = 3"
    and r: "remaining three_tasks_one_done = 2"
    by (simp_all add: three_tasks_one_done_eq remaining_def)
  have e: "todos initial = []" by (simp add: initial_def)
  from progress_spec [of three_tasks_one_done] l
  have "completionPct three_tasks_one_done =
        Finite ((of_nat (length (todos three_tasks_one_done)) -
                 of_nat (remaining three_tasks_one_done)) /
                of_nat (length (todos three_tasks_one_done)))"
    by simp
  then have p: "completionPct three_tasks_one_done = Finite (1 / 3)"
    by (simp add: l r)
  from progress_spec [of initial] e
  have "remaining initial = 0 \<and> completionPct initial = Finite 0" by blast
  with l r p e show ?thesis by simp
qed

subsection \<open>C5: toggle\<close>



subsection \<open>C6: delete\<close>



subsection \<open>C7: editing a text\<close>

text \<open>
  The edit on a state whose list holds no empty id, or with an id that is not empty.
\<close>

lemma saveEdit_todos:
  assumes "i \<noteq> [] \<or> [] \<notin> set (map id_todo (todos st))"
  shows "(trim new = [] \<longrightarrow>
            todos (saveEdit (st\<lparr>editingId := Some i, editText := new\<rparr>)) = todos st) \<and>
         (trim new \<noteq> [] \<longrightarrow>
            length (todos (saveEdit (st\<lparr>editingId := Some i, editText := new\<rparr>)))
              = length (todos st) \<and>
            (\<forall>k < length (todos st).
               todos (saveEdit (st\<lparr>editingId := Some i, editText := new\<rparr>)) ! k =
                 (if id_todo (todos st ! k) = i
                  then (todos st ! k)\<lparr>text_todo := trim new\<rparr>
                  else todos st ! k)))"
proof (cases "i = []")
  case False
  then show ?thesis by (simp add: saveEdit_def Let_def)
next
  case True
  with assms have "\<forall>k < length (todos st). id_todo (todos st ! k) \<noteq> i"
    by auto (metis imageI nth_mem)
  with True show ?thesis by (simp add: saveEdit_def)
qed

text \<open>
  C7: for every task list that a run of the component reaches, every id and every new
  text: if the trimmed new text is empty, the edit leaves the list unchanged (no task is
  removed and the text keeps its old value); if it is not empty, the list keeps its
  length, the task with the id gets the trimmed text as \<open>text\<close> and keeps its id,
  \<open>completed\<close>, priority, \<open>createdAt\<close> and position, and every other task is unchanged.
\<close>

theorem saveEdit_spec:
  "(trim new = [] \<longrightarrow>
      todos (saveEdit ((run es initial)\<lparr>editingId := Some i, editText := new\<rparr>))
        = todos (run es initial)) \<and>
   (trim new \<noteq> [] \<longrightarrow>
      length (todos (saveEdit ((run es initial)\<lparr>editingId := Some i, editText := new\<rparr>)))
        = length (todos (run es initial)) \<and>
      (\<forall>k < length (todos (run es initial)).
         todos (saveEdit ((run es initial)\<lparr>editingId := Some i, editText := new\<rparr>)) ! k =
           (if id_todo (todos (run es initial) ! k) = i
            then (todos (run es initial) ! k)\<lparr>text_todo := trim new\<rparr>
            else todos (run es initial) ! k)))"
proof -
  have "i \<noteq> [] \<or> [] \<notin> set (map id_todo (todos (run es initial)))"
    using reachable_no_empty_id [of es] by blast
  then show ?thesis by (rule saveEdit_todos)
qed

text \<open>Editing the task "5" of the list with the ids "6" and "5" to " hello " and to
  blanks, and editing with the empty id.\<close>

theorem saveEdit_spec_witness:
  "trim (js '' hello '') = js ''hello'' \<and>
   todos (saveEdit (two_tasks\<lparr>editingId := Some (js ''5''), editText := js '' hello ''\<rparr>)) ! 1 =
     \<lparr>id_todo = js ''5'', text_todo = js ''hello'', completed = False,
      priority_todo = Medium, createdAt = 5\<rparr> \<and>
   todos (saveEdit (two_tasks\<lparr>editingId := Some (js ''5''), editText := js '' hello ''\<rparr>)) ! 0 =
     todos two_tasks ! 0 \<and>
   trim (js ''   '') = [] \<and>
   todos (saveEdit (two_tasks\<lparr>editingId := Some (js ''5''), editText := js ''   ''\<rparr>)) =
     todos two_tasks \<and>
   todos (saveEdit (two_tasks\<lparr>editingId := Some [], editText := js '' hello ''\<rparr>)) ! 1 =
     todos two_tasks ! 1"
proof -
  note spec = saveEdit_spec
    [where es = "[SetInput (js ''a''), AddTodo 5 5, SetInput (js ''b''), AddTodo 6 6]",
     folded two_tasks_def]
  have t: "trim (js '' hello '') = js ''hello''" and e: "trim (js ''   '') = []"
    by (simp_all add: js_def trim_def isWhiteSpace_def)
  have ne: "trim (js '' hello '') \<noteq> []"
    by (simp add: js_def trim_def isWhiteSpace_def)
  have l: "(0::nat) < length (todos two_tasks)" "(1::nat) < length (todos two_tasks)"
    by (simp_all add: two_tasks_eq)
  from spec [of "js '' hello ''" "js ''5''"] ne
  have p: "\<forall>k < length (todos two_tasks).
      todos (saveEdit (two_tasks\<lparr>editingId := Some (js ''5''), editText := js '' hello ''\<rparr>)) ! k =
        (if id_todo (todos two_tasks ! k) = js ''5''
         then (todos two_tasks ! k)\<lparr>text_todo := trim (js '' hello '')\<rparr>
         else todos two_tasks ! k)"
    by blast
  from p l(2) have 1: "todos (saveEdit (two_tasks\<lparr>editingId := Some (js ''5''),
        editText := js '' hello ''\<rparr>)) ! 1 =
     \<lparr>id_todo = js ''5'', text_todo = js ''hello'', completed = False,
      priority_todo = Medium, createdAt = 5\<rparr>"
    unfolding t by (simp add: two_tasks_eq)
  from p l(1) have 0: "todos (saveEdit (two_tasks\<lparr>editingId := Some (js ''5''),
        editText := js '' hello ''\<rparr>)) ! 0 = todos two_tasks ! 0"
    unfolding t by (simp add: two_tasks_eq js_def)
  from spec [of "js ''   ''" "js ''5''"] e
  have 2: "todos (saveEdit (two_tasks\<lparr>editingId := Some (js ''5''), editText := js ''   ''\<rparr>)) =
     todos two_tasks"
    by blast
  from spec [of "js '' hello ''" "[]"] ne
  have q: "\<forall>k < length (todos two_tasks).
      todos (saveEdit (two_tasks\<lparr>editingId := Some [], editText := js '' hello ''\<rparr>)) ! k =
        (if id_todo (todos two_tasks ! k) = []
         then (todos two_tasks ! k)\<lparr>text_todo := trim (js '' hello '')\<rparr>
         else todos two_tasks ! k)"
    by blast
  from q l(2) have 3: "todos (saveEdit (two_tasks\<lparr>editingId := Some [],
        editText := js '' hello ''\<rparr>)) ! 1 = todos two_tasks ! 1"
    by (simp add: two_tasks_eq js_def)
  from t 1 0 e 2 3 show ?thesis by blast
qed

subsection \<open>C8: clearing the completed tasks\<close>

text \<open>
  C8: for every task list, once the user confirms, \<open>clearCompleted\<close> returns in one step
  exactly the tasks with \<open>completed = false\<close> in their old order: no completed task is
  left, every completed task is gone, every other task is kept, and no task is new.
\<close>

theorem clearCompleted_spec:
  "todos (clearCompleted Clear st) = filter (\<lambda>t. \<not> completed t) (todos st) \<and>
   length (filter completed (todos (clearCompleted Clear st))) = 0 \<and>
   (\<forall>t \<in> set (todos st). completed t \<longrightarrow> t \<notin> set (todos (clearCompleted Clear st))) \<and>
   (\<forall>t \<in> set (todos st). \<not> completed t \<longrightarrow> t \<in> set (todos (clearCompleted Clear st))) \<and>
   set (todos (clearCompleted Clear st)) \<subseteq> set (todos st)"
  by (auto simp add: clearCompleted_def)

text \<open>Clearing the list of the tasks "6" and "5" after "5" was completed.\<close>

theorem clearCompleted_spec_witness:
  "todos (toggleTodo (toString 5) two_tasks) =
     [\<lparr>id_todo = js ''6'', text_todo = js ''b'', completed = False,
       priority_todo = Medium, createdAt = 6\<rparr>,
      \<lparr>id_todo = js ''5'', text_todo = js ''a'', completed = True,
       priority_todo = Medium, createdAt = 5\<rparr>] \<and>
   todos (clearCompleted Clear (toggleTodo (toString 5) two_tasks)) =
     [\<lparr>id_todo = js ''6'', text_todo = js ''b'', completed = False,
       priority_todo = Medium, createdAt = 6\<rparr>]"
proof -
  have s: "todos (toggleTodo (toString 5) two_tasks) =
     [\<lparr>id_todo = js ''6'', text_todo = js ''b'', completed = False,
       priority_todo = Medium, createdAt = 6\<rparr>,
      \<lparr>id_todo = js ''5'', text_todo = js ''a'', completed = True,
       priority_todo = Medium, createdAt = 5\<rparr>]"
    by (simp add: two_tasks_eq toggleTodo_def js_def toString_def digits.simps digit_def)
  from clearCompleted_spec [of "toggleTodo (toString 5) two_tasks"]
  have "todos (clearCompleted Clear (toggleTodo (toString 5) two_tasks)) =
        filter (\<lambda>t. \<not> completed t) (todos (toggleTodo (toString 5) two_tasks))"
    by blast
  with s show ?thesis by simp
qed

subsection \<open>C9: toggling twice\<close>

text \<open>
  C9: for every state and every id, present in the list or not, toggling the id twice
  gives the state back: every field of every task and the order are as before.
\<close>

theorem toggle_twice: "toggleTodo i (toggleTodo i st) = st"
proof -
  have "map ((\<lambda>t. if id_todo t = i then t\<lparr>completed := \<not> completed t\<rparr> else t) \<circ>
             (\<lambda>t. if id_todo t = i then t\<lparr>completed := \<not> completed t\<rparr> else t)) xs = xs" for xs :: "Todo list"
    by (induction xs) auto
  then show ?thesis by (simp add: toggleTodo_def)
qed

text \<open>Toggling a known and an unknown id twice.\<close>

theorem toggle_twice_witness:
  "toggleTodo (js ''5'') (toggleTodo (js ''5'') two_tasks) = two_tasks \<and>
   toggleTodo (js ''9'') (toggleTodo (js ''9'') two_tasks) = two_tasks"
  using toggle_twice [of "js ''5''" two_tasks] toggle_twice [of "js ''9''" two_tasks]
  by (rule conjI)

subsection \<open>C10: the view of everything\<close>

text \<open>
  C10: for every task list, the derived view with the filter \<open>all\<close> and the empty search
  string is the whole list, unchanged and in the same order, whatever the case folding.
\<close>

theorem filtered_all_empty_search:
  "filtered toLowerCase (st\<lparr>filter_st := All_filter, search := []\<rparr>) = todos st"
  by (simp add: filtered_def)

text \<open>The whole list of two tasks is its own view.\<close>

theorem filtered_all_empty_search_witness:
  "filtered asciiLower (two_tasks\<lparr>filter_st := All_filter, search := []\<rparr>) = todos two_tasks"
  by (rule filtered_all_empty_search)

end
